theory Spec2Isabelle
  imports Main
begin

section \<open>Go integers\<close>

text \<open>
  Go's \<open>int\<close> is a 64-bit two's complement integer on the platforms the server is built
  for. The model keeps integers as \<open>int\<close> and writes the wrap-around out wherever the
  code adds or subtracts values that a caller controls (positions and versions of
  operations, the version counter of a document). \<open>len\<close> of a string is the length of
  the byte list.
\<close>

definition wrap64 :: "int \<Rightarrow> int" where
  "wrap64 x = (x + 2 ^ 63) mod 2 ^ 64 - 2 ^ 63"

definition go_add :: "int \<Rightarrow> int \<Rightarrow> int" where
  "go_add x y = wrap64 (x + y)"

definition go_sub :: "int \<Rightarrow> int \<Rightarrow> int" where
  "go_sub x y = wrap64 (x - y)"

section \<open>Operations (operation.go)\<close>

type_synonym OpType = string

definition OpInsert :: OpType where
  "OpInsert = ''insert''"

definition OpDelete :: OpType where
  "OpDelete = ''delete''"

definition OpRetain :: OpType where
  "OpRetain = ''retain''"

record Operation =
  Type :: OpType
  Position :: int
  Text :: string
  Version :: int

definition NewInsertOp :: "int \<Rightarrow> string \<Rightarrow> int \<Rightarrow> Operation" where
  "NewInsertOp position text version =
     \<lparr>Type = OpInsert, Position = position, Text = text, Version = version\<rparr>"

definition NewDeleteOp :: "int \<Rightarrow> string \<Rightarrow> int \<Rightarrow> Operation" where
  "NewDeleteOp position text version =
     \<lparr>Type = OpDelete, Position = position, Text = text, Version = version\<rparr>"

text \<open>The errors of the operations package, one constructor for each \<open>fmt.Errorf\<close>.\<close>

datatype error =
    NilOperation
  | InvalidPosition int
  | EmptyInsertText
  | EmptyDeleteText
  | UnknownOpType OpType
  | InvalidVersion int
  | InvalidOperation error
  | InsertOutOfRange int int
  | DeleteOutOfRange int int
  | DeleteRangeExceeds int int int
  | DeleteTextMismatch string string
  | NilOperations
  | Op1Invalid error
  | Op2Invalid error
  | UnsupportedCombination OpType OpType

text \<open>\<open>Validate\<close> returns \<open>None\<close> for Go's \<open>nil\<close> error.\<close>

definition Validate :: "Operation \<Rightarrow> error option" where
  "Validate op =
     (if Position op < 0 then Some (InvalidPosition (Position op))
      else
        case (if Type op = OpInsert then (if Text op = [] then Some EmptyInsertText else None)
              else if Type op = OpDelete then (if Text op = [] then Some EmptyDeleteText else None)
              else if Type op = OpRetain then None
              else Some (UnknownOpType (Type op))) of
          Some e \<Rightarrow> Some e
        | None \<Rightarrow> if Version op < 0 then Some (InvalidVersion (Version op)) else None)"

definition Length :: "Operation \<Rightarrow> int" where
  "Length op = int (length (Text op))"

section \<open>Apply (apply.go)\<close>

text \<open>
  A Go string is a byte sequence, here a \<open>string\<close>; \<open>doc[:p]\<close> and \<open>doc[p:]\<close> are
  \<open>take\<close> and \<open>drop\<close>, always behind the range checks of the source. The sum
  \<open>op.Position+deleteLen\<close> of \<open>applyDelete\<close> is computed only once
  \<open>op.Position < len(doc)\<close> is known, so both summands are bounded by lengths of
  strings in memory and the addition does not wrap.
\<close>

definition applyInsert :: "string \<Rightarrow> Operation \<Rightarrow> error + string" where
  "applyInsert doc op =
     (let docLen = int (length doc) in
      if Position op < 0 \<or> Position op > docLen then Inl (InsertOutOfRange (Position op) docLen)
      else Inr (take (nat (Position op)) doc @ Text op @ drop (nat (Position op)) doc))"

definition applyDelete :: "string \<Rightarrow> Operation \<Rightarrow> error + string" where
  "applyDelete doc op =
     (let docLen = int (length doc); deleteLen = Length op in
      if Position op < 0 \<or> Position op \<ge> docLen then Inl (DeleteOutOfRange (Position op) docLen)
      else if Position op + deleteLen > docLen
        then Inl (DeleteRangeExceeds (Position op) (Position op + deleteLen) docLen)
      else
        let actualText = drop (nat (Position op)) (take (nat (Position op + deleteLen)) doc) in
        if actualText \<noteq> Text op then Inl (DeleteTextMismatch (Text op) actualText)
        else Inr (take (nat (Position op)) doc @ drop (nat (Position op + deleteLen)) doc))"

text \<open>The operation is passed by pointer: \<open>None\<close> is \<open>nil\<close>.\<close>

definition Apply :: "string \<Rightarrow> Operation option \<Rightarrow> error + string" where
  "Apply doc opp =
     (case opp of
        None \<Rightarrow> Inl NilOperation
      | Some op \<Rightarrow>
          (case Validate op of
             Some e \<Rightarrow> Inl (InvalidOperation e)
           | None \<Rightarrow>
               if Type op = OpInsert then applyInsert doc op
               else if Type op = OpDelete then applyDelete doc op
               else if Type op = OpRetain then Inr doc
               else Inl (UnknownOpType (Type op))))"

section \<open>Transform (transform.go)\<close>

text \<open>
  The helpers of the source mutate the two fresh copies through pointers; here each
  returns the pair of updated copies.
\<close>

definition transformInsertInsert :: "Operation \<Rightarrow> Operation \<Rightarrow> Operation \<times> Operation" where
  "transformInsertInsert op1 op2 =
     (if Position op1 < Position op2
        then (op1, op2\<lparr>Position := go_add (Position op2) (Length op1)\<rparr>)
      else if Position op1 > Position op2
        then (op1\<lparr>Position := go_add (Position op1) (Length op2)\<rparr>, op2)
      else (op1, op2\<lparr>Position := go_add (Position op2) (Length op1)\<rparr>))"

definition transformInsertDelete :: "Operation \<Rightarrow> Operation \<Rightarrow> Operation \<times> Operation" where
  "transformInsertDelete ins del =
     (if Position ins \<le> Position del
        then (ins, del\<lparr>Position := go_add (Position del) (Length ins)\<rparr>)
      else if Position ins > go_add (Position del) (Length del)
        then (ins\<lparr>Position := go_sub (Position ins) (Length del)\<rparr>, del)
      else (ins\<lparr>Position := Position del\<rparr>, del))"

definition transformDeleteInsert :: "Operation \<Rightarrow> Operation \<Rightarrow> Operation \<times> Operation" where
  "transformDeleteInsert del ins =
     (case transformInsertDelete ins del of (ins', del') \<Rightarrow> (del', ins'))"

definition transformDeleteDelete :: "Operation \<Rightarrow> Operation \<Rightarrow> Operation \<times> Operation" where
  "transformDeleteDelete op1 op2 =
     (let op1Start = Position op1;
          op1End = go_add (Position op1) (Length op1);
          op2Start = Position op2;
          op2End = go_add (Position op2) (Length op2) in
      if op1End \<le> op2Start
        then (op1, op2\<lparr>Position := go_sub (Position op2) (Length op1)\<rparr>)
      else if op2End \<le> op1Start
        then (op1\<lparr>Position := go_sub (Position op1) (Length op2)\<rparr>, op2)
      else if op1Start = op2Start \<and> op1End = op2End
        then (op1\<lparr>Text := []\<rparr>, op2\<lparr>Text := []\<rparr>)
      else if op2Start < op1Start then
        (let overlap = go_sub (min op1End op2End) op1Start in
         ((if overlap > 0 \<and> overlap < Length op1
             then op1\<lparr>Position := op2Start, Text := drop (nat overlap) (Text op1)\<rparr>
           else if overlap \<ge> Length op1
             then op1\<lparr>Position := op2Start, Text := []\<rparr>
           else op1\<lparr>Position := op2Start\<rparr>), op2))
      else
        (let overlap = go_sub (min op1End op2End) op2Start in
         (op1, (if overlap > 0 \<and> overlap < Length op2
                  then op2\<lparr>Position := op1Start, Text := drop (nat overlap) (Text op2)\<rparr>
                else if overlap \<ge> Length op2
                  then op2\<lparr>Position := op1Start, Text := []\<rparr>
                else op2\<lparr>Position := op1Start\<rparr>))))"

definition Transform ::
  "Operation option \<Rightarrow> Operation option \<Rightarrow> error + (Operation \<times> Operation)" where
  "Transform p1 p2 =
     (case (p1, p2) of
        (Some op1, Some op2) \<Rightarrow>
          (case Validate op1 of
             Some e \<Rightarrow> Inl (Op1Invalid e)
           | None \<Rightarrow>
               (case Validate op2 of
                  Some e \<Rightarrow> Inl (Op2Invalid e)
                | None \<Rightarrow>
                    (let op1Prime = \<lparr>Type = Type op1, Position = Position op1,
                                     Text = Text op1, Version = go_add (Version op1) 1\<rparr>;
                         op2Prime = \<lparr>Type = Type op2, Position = Position op2,
                                     Text = Text op2, Version = go_add (Version op2) 1\<rparr> in
                     if Type op1 = OpInsert \<and> Type op2 = OpInsert
                       then Inr (transformInsertInsert op1Prime op2Prime)
                     else if Type op1 = OpInsert \<and> Type op2 = OpDelete
                       then Inr (transformInsertDelete op1Prime op2Prime)
                     else if Type op1 = OpDelete \<and> Type op2 = OpInsert
                       then Inr (transformDeleteInsert op1Prime op2Prime)
                     else if Type op1 = OpDelete \<and> Type op2 = OpDelete
                       then Inr (transformDeleteDelete op1Prime op2Prime)
                     else Inl (UnsupportedCombination (Type op1) (Type op2)))))
      | _ \<Rightarrow> Inl NilOperations)"

section \<open>Document (document.go)\<close>

text \<open>
  The mutex serialises the methods, so each method is one atomic update of the record.
  \<open>time.Now()\<close> is the clock reading passed as \<open>now\<close>.
\<close>

type_synonym time = nat

record Document =
  content :: string
  version :: int
  lastModified :: time

definition NewDocument :: "time \<Rightarrow> Document" where
  "NewDocument now = \<lparr>content = [], version = 0, lastModified = now\<rparr>"

definition SetContent :: "time \<Rightarrow> string \<Rightarrow> Document \<Rightarrow> Document" where
  "SetContent now c d = d\<lparr>content := c, version := go_add (version d) 1, lastModified := now\<rparr>"

definition GetContentAndVersion :: "Document \<Rightarrow> string \<times> int" where
  "GetContentAndVersion d = (content d, version d)"

text \<open>
  \<open>ApplyOperation\<close> returns the document after the call together with the three
  results \<open>(string, int, error)\<close> of the source.
\<close>

definition ApplyOperation ::
  "time \<Rightarrow> Operation option \<Rightarrow> Document \<Rightarrow> Document \<times> (string \<times> int \<times> error option)" where
  "ApplyOperation now opp d =
     (case Apply (content d) opp of
        Inl err \<Rightarrow> (d, ([], version d, Some err))
      | Inr newContent \<Rightarrow>
          (let d' = d\<lparr>content := newContent, version := go_add (version d) 1,
                       lastModified := now\<rparr>
           in (d', (newContent, version d', None))))"

section \<open>Messages (message.go)\<close>

type_synonym bytes = string

type_synonym MessageType = string

definition MsgTypeContent :: MessageType where
  "MsgTypeContent = ''content''"

definition MsgTypeOperation :: MessageType where
  "MsgTypeOperation = ''operation''"

definition MsgTypeUserCount :: MessageType where
  "MsgTypeUserCount = ''user_count''"

text \<open>
  The field \<open>Type\<close> of the Go struct is \<open>MsgType\<close> here, since \<open>Type\<close> is the field
  of \<open>Operation\<close>. The \<open>Operation\<close> pointer is an option.
\<close>

record Message =
  MsgType :: MessageType
  DocumentID :: string
  Content :: string
  Operation :: "Operation option"
  UserCount :: int

definition NewUserCountMessage :: "int \<Rightarrow> Message" where
  "NewUserCountMessage count =
     \<lparr>MsgType = MsgTypeUserCount, DocumentID = [], Content = [], Operation = None,
      UserCount = count\<rparr>"

text \<open>
  The three functions of message.go that the hub calls are thin wrappers of
  \<open>encoding/json\<close>, a library outside the repository. They are parameters of the
  hub model: \<open>MessageFromBytes\<close> is \<open>None\<close> when \<open>json.Unmarshal\<close> into a
  \<open>Message\<close> fails, \<open>IsLegacyContent\<close> holds when \<open>json.Unmarshal\<close> into a
  \<open>map[string]interface{}\<close> fails, and \<open>ToBytes\<close> is \<open>None\<close> when
  \<open>json.Marshal\<close> fails.
\<close>

record codec =
  MessageFromBytes :: "bytes \<Rightarrow> Message option"
  IsLegacyContent :: "bytes \<Rightarrow> bool"
  ToBytes :: "Message \<Rightarrow> bytes option"

section \<open>Hub (hub.go)\<close>

text \<open>
  A buffered channel of byte slices is its buffer, its capacity and whether it has been
  closed. The writer goroutine that drains the buffer runs between the steps of the hub.
\<close>

record chan =
  buf :: "bytes list"
  cap :: nat
  closed :: bool

text \<open>
  The statement \<open>select { case ch <- m: ... default: ... }\<close> has three outcomes: the
  message is buffered, the buffer is full and the default case runs, or the channel is
  closed and the send panics.
\<close>

datatype select_send = Sent chan | Default | Panic

definition try_send :: "chan \<Rightarrow> bytes \<Rightarrow> select_send" where
  "try_send ch m =
     (if closed ch then Panic
      else if length (buf ch) < cap ch then Sent (ch\<lparr>buf := buf ch @ [m]\<rparr>)
      else Default)"

text \<open>
  Of a \<open>Client\<close> the hub loop reads \<open>documentID\<close> and writes to \<open>send\<close>. Clients
  are heap objects compared by address: a \<open>client_ref\<close> is that address. The map
  \<open>h.clients\<close> is the list of its keys with the objects they point to, in the order of
  one iteration; every theorem below holds for each order. The goroutines started by
  \<open>go h.Unregister(client)\<close> wait to send on the unregister channel: \<open>unregister\<close>
  lists the clients they carry.
\<close>

type_synonym client_ref = nat

record Client =
  documentID :: string
  send :: chan

record Hub =
  clients :: "(client_ref \<times> Client) list"
  documents :: "string \<Rightarrow> Document option"
  unregister :: "client_ref list"

definition NewHub :: Hub where
  "NewHub = \<lparr>clients = [], documents = (\<lambda>_. None), unregister = []\<rparr>"

text \<open>
  \<open>for client := range h.clients { ... }\<close>: the body returns the client after the
  iteration and the clients it scheduled for unregistration, or \<open>None\<close> when it
  panics, which ends the hub.
\<close>

fun range_clients ::
  "(client_ref \<Rightarrow> Client \<Rightarrow> (Client \<times> client_ref list) option) \<Rightarrow>
   (client_ref \<times> Client) list \<Rightarrow> ((client_ref \<times> Client) list \<times> client_ref list) option" where
  "range_clients body [] = Some ([], [])"
| "range_clients body ((r, c) # rest) =
     (case body r c of
        None \<Rightarrow> None
      | Some (c', s) \<Rightarrow>
          (case range_clients body rest of
             None \<Rightarrow> None
           | Some (cs, ss) \<Rightarrow> Some ((r, c') # cs, s @ ss)))"

definition broadcastToAll :: "bytes \<Rightarrow> client_ref option \<Rightarrow> Hub \<Rightarrow> Hub option" where
  "broadcastToAll message exclude h =
     (case range_clients
             (\<lambda>r c. if exclude \<noteq> None \<and> Some r = exclude then Some (c, [])
                    else case try_send (send c) message of
                           Sent ch \<Rightarrow> Some (c\<lparr>send := ch\<rparr>, [])
                         | Default \<Rightarrow> Some (c, [r])
                         | Panic \<Rightarrow> None)
             (clients h) of
        None \<Rightarrow> None
      | Some (cs, ss) \<Rightarrow> Some (h\<lparr>clients := cs, unregister := unregister h @ ss\<rparr>))"

definition broadcastToDocument ::
  "string \<Rightarrow> bytes \<Rightarrow> client_ref option \<Rightarrow> Hub \<Rightarrow> Hub option" where
  "broadcastToDocument docID message exclude h =
     (case range_clients
             (\<lambda>r c. if documentID c = docID then
                      (if exclude \<noteq> None \<and> Some r = exclude then Some (c, [])
                       else case try_send (send c) message of
                              Sent ch \<Rightarrow> Some (c\<lparr>send := ch\<rparr>, [])
                            | Default \<Rightarrow> Some (c, [r])
                            | Panic \<Rightarrow> None)
                    else Some (c, []))
             (clients h) of
        None \<Rightarrow> None
      | Some (cs, ss) \<Rightarrow> Some (h\<lparr>clients := cs, unregister := unregister h @ ss\<rparr>))"

text \<open>
  \<open>docCounts[client.documentID]++\<close> on a map from document IDs to counts, kept as an
  association list with one entry for each key. A count is at most the number of
  registered clients, so the increment does not wrap.
\<close>

fun increment :: "string \<Rightarrow> (string \<times> int) list \<Rightarrow> (string \<times> int) list" where
  "increment k [] = [(k, 1)]"
| "increment k ((k', n) # m) = (if k = k' then (k', n + 1) # m else (k', n) # increment k m)"

fun docCounts :: "(client_ref \<times> Client) list \<Rightarrow> (string \<times> int) list \<Rightarrow> (string \<times> int) list" where
  "docCounts [] m = m"
| "docCounts ((r, c) # rest) m = docCounts rest (increment (documentID c) m)"

text \<open>
  The outer loop of \<open>broadcastUserCount\<close> over \<open>docCounts\<close>; a marshalling error skips
  the document, and a full buffer only skips the client. The loop visits the entries in
  the order of the list; \<open>userCount_loop_open\<close> below gives the same result for every
  list with the same entries, so the order of Go's map iteration does not matter.
\<close>

fun userCount_loop ::
  "codec \<Rightarrow> (string \<times> int) list \<Rightarrow> (client_ref \<times> Client) list \<Rightarrow>
   (client_ref \<times> Client) list option" where
  "userCount_loop cd [] cs = Some cs"
| "userCount_loop cd ((docID, count) # rest) cs =
     (case ToBytes cd (NewUserCountMessage count) of
        None \<Rightarrow> userCount_loop cd rest cs
      | Some msgBytes \<Rightarrow>
          (case range_clients
                  (\<lambda>r c. if documentID c = docID then
                           (case try_send (send c) msgBytes of
                              Sent ch \<Rightarrow> Some (c\<lparr>send := ch\<rparr>, [])
                            | Default \<Rightarrow> Some (c, [])
                            | Panic \<Rightarrow> None)
                         else Some (c, []))
                  cs of
             None \<Rightarrow> None
           | Some (cs', ss) \<Rightarrow> userCount_loop cd rest cs'))"

definition broadcastUserCount :: "codec \<Rightarrow> Hub \<Rightarrow> Hub option" where
  "broadcastUserCount cd h =
     (case userCount_loop cd (docCounts (clients h) []) (clients h) of
        None \<Rightarrow> None
      | Some cs \<Rightarrow> Some (h\<lparr>clients := cs\<rparr>))"

definition GetOrCreateDocument :: "time \<Rightarrow> string \<Rightarrow> Hub \<Rightarrow> Document \<times> Hub" where
  "GetOrCreateDocument now docID h =
     (case documents h docID of
        Some doc \<Rightarrow> (doc, h)
      | None \<Rightarrow>
          (let doc = NewDocument now
           in (doc, h\<lparr>documents := (documents h)(docID \<mapsto> doc)\<rparr>)))"

text \<open>
  The cases of the \<open>select\<close> in \<open>Run\<close>, one function each. \<open>None\<close> is a panic of the
  hub goroutine. Documents are heap objects reached through \<open>h.documents\<close>; a method
  call on one is an update of the entry.
\<close>

definition Run_register :: "codec \<Rightarrow> client_ref \<Rightarrow> Client \<Rightarrow> Hub \<Rightarrow> Hub option" where
  "Run_register cd r c h =
     broadcastUserCount cd
       (if r \<in> fst ` set (clients h) then h else h\<lparr>clients := clients h @ [(r, c)]\<rparr>)"

definition Run_unregister :: "codec \<Rightarrow> client_ref \<Rightarrow> Hub \<Rightarrow> Hub option" where
  "Run_unregister cd r h =
     (case map_of (clients h) r of
        Some c \<Rightarrow>
          (if closed (send c) then None
           else broadcastUserCount cd (h\<lparr>clients := filter (\<lambda>(r', c'). r' \<noteq> r) (clients h)\<rparr>))
      | None \<Rightarrow> broadcastUserCount cd h)"

definition Run_broadcast ::
  "codec \<Rightarrow> time \<Rightarrow> time \<Rightarrow> bytes \<Rightarrow> client_ref option \<Rightarrow> Hub \<Rightarrow> Hub option" where
  "Run_broadcast cd created now message sender h =
     (case MessageFromBytes cd message of
        None \<Rightarrow> broadcastToAll message None h
      | Some msg \<Rightarrow>
          if IsLegacyContent cd message then broadcastToAll message None h
          else if DocumentID msg = [] then broadcastToAll message None h
          else
            (case GetOrCreateDocument created (DocumentID msg) h of (doc, h1) \<Rightarrow>
               if MsgType msg = MsgTypeOperation then
                 (case Operation msg of
                    None \<Rightarrow> Some h1
                  | Some op \<Rightarrow>
                      (case ApplyOperation now (Some op) doc of
                         (doc', (newContent, newVersion, err)) \<Rightarrow>
                           (let h2 = h1\<lparr>documents := (documents h1)(DocumentID msg \<mapsto> doc')\<rparr> in
                            case err of
                              Some e \<Rightarrow> Some h2
                            | None \<Rightarrow>
                                (case ToBytes cd
                                        (msg\<lparr>Operation := Some (op\<lparr>Version := newVersion\<rparr>)\<rparr>) of
                                   None \<Rightarrow> Some h2
                                 | Some msgBytes \<Rightarrow>
                                     broadcastToDocument (DocumentID msg) msgBytes sender h2))))
               else if MsgType msg = MsgTypeContent then
                 (if Content msg \<noteq> [] then
                    (let h2 = h1\<lparr>documents :=
                                   (documents h1)(DocumentID msg \<mapsto> SetContent now (Content msg) doc)\<rparr>;
                         msgBytes = (case ToBytes cd msg of None \<Rightarrow> [] | Some b \<Rightarrow> b)
                     in broadcastToDocument (DocumentID msg) msgBytes sender h2)
                  else Some h1)
               else broadcastToDocument (DocumentID msg) message sender h1))"

text \<open>\<open>NewClient\<close> of client.go: a fresh client has an open channel of capacity 256.\<close>

definition NewClient :: "string \<Rightarrow> Client" where
  "NewClient docID = \<lparr>documentID = docID, send = \<lparr>buf = [], cap = 256, closed = False\<rparr>\<rparr>"

section \<open>Vocabulary of the statements\<close>

text \<open>
  A participant's outbound queue has room when its buffer is below its capacity;
  \<open>enqueue\<close> is the backpressure rule for one participant: the message is appended
  when there is room and skipped when the queue is full. \<open>all_open\<close> says that no
  registered participant has a closed queue, which the hub maintains since it closes
  a queue only when it removes the participant. \<open>participants_on\<close> is the number of
  registered participants bound to a document, and \<open>emit_user_count\<close> is the
  user-count emission: every participant is pushed the count of its own document,
  unless that message cannot be marshalled.
\<close>

definition has_room :: "Client \<Rightarrow> bool" where
  "has_room c = (length (buf (send c)) < cap (send c))"

definition enqueue :: "bytes \<Rightarrow> Client \<Rightarrow> Client" where
  "enqueue m c = (if has_room c then c\<lparr>send := (send c)\<lparr>buf := buf (send c) @ [m]\<rparr>\<rparr> else c)"

definition all_open :: "(client_ref \<times> Client) list \<Rightarrow> bool" where
  "all_open cs = list_all (\<lambda>(r, c). \<not> closed (send c)) cs"

definition participants_on :: "string \<Rightarrow> (client_ref \<times> Client) list \<Rightarrow> int" where
  "participants_on docID cs = int (length (filter (\<lambda>(r, c). documentID c = docID) cs))"

definition emit_user_count ::
  "codec \<Rightarrow> (client_ref \<times> Client) list \<Rightarrow> (client_ref \<times> Client) list" where
  "emit_user_count cd cs =
     map (\<lambda>(r, c).
            (r, case ToBytes cd (NewUserCountMessage (participants_on (documentID c) cs)) of
                  None \<Rightarrow> c
                | Some msgBytes \<Rightarrow> enqueue msgBytes c)) cs"

section \<open>Frames and states of the examples\<close>

text \<open>
  The values of \<open>encoding/json\<close> on the frames that the examples send: a plain-text
  frame that is not JSON, a content message with no content, an operation message
  with no operation, a content message with no document ID, a message of a type the
  hub does not know, and the user-count messages for one and two participants.
  \<open>json_frames\<close> is the codec restricted to these frames and messages.
\<close>

definition frame_hello :: bytes where
  "frame_hello = ''hello''"

definition frame_empty_content :: bytes where
  "frame_empty_content = ''{\"type\":\"content\",\"document_id\":\"doc-A\"}''"

definition frame_no_operation :: bytes where
  "frame_no_operation = ''{\"type\":\"operation\",\"document_id\":\"doc-A\"}''"

definition frame_no_document :: bytes where
  "frame_no_document = ''{\"type\":\"content\",\"content\":\"hi\"}''"

definition frame_cursor :: bytes where
  "frame_cursor = ''{\"type\":\"cursor\",\"document_id\":\"doc-A\"}''"

definition frame_user_count_1 :: bytes where
  "frame_user_count_1 = ''{\"type\":\"user_count\",\"user_count\":1}''"

definition frame_user_count_2 :: bytes where
  "frame_user_count_2 = ''{\"type\":\"user_count\",\"user_count\":2}''"

definition json_frames :: codec where
  "json_frames =
     \<lparr>MessageFromBytes = (\<lambda>b.
        if b = frame_empty_content then
          Some \<lparr>MsgType = MsgTypeContent, DocumentID = ''doc-A'', Content = [],
                Operation = None, UserCount = 0\<rparr>
        else if b = frame_no_operation then
          Some \<lparr>MsgType = MsgTypeOperation, DocumentID = ''doc-A'', Content = [],
                Operation = None, UserCount = 0\<rparr>
        else if b = frame_no_document then
          Some \<lparr>MsgType = MsgTypeContent, DocumentID = [], Content = ''hi'',
                Operation = None, UserCount = 0\<rparr>
        else if b = frame_cursor then
          Some \<lparr>MsgType = ''cursor'', DocumentID = ''doc-A'', Content = [],
                Operation = None, UserCount = 0\<rparr>
        else None),
      IsLegacyContent = (\<lambda>b.
        b \<noteq> frame_empty_content \<and> b \<noteq> frame_no_operation \<and> b \<noteq> frame_no_document \<and>
        b \<noteq> frame_cursor),
      ToBytes = (\<lambda>m.
        if m = NewUserCountMessage 1 then Some frame_user_count_1
        else if m = NewUserCountMessage 2 then Some frame_user_count_2
        else None)\<rparr>"

text \<open>
  Participant 1 alone on \<open>doc-A\<close>; participants 1 and 2 on \<open>doc-A\<close>; and participant 1
  with a full queue of 256 undelivered frames.
\<close>

definition hub_one :: Hub where
  "hub_one = NewHub\<lparr>clients := [(1, NewClient ''doc-A'')]\<rparr>"

definition hub_two :: Hub where
  "hub_two = NewHub\<lparr>clients := [(1, NewClient ''doc-A''), (2, NewClient ''doc-A'')]\<rparr>"

definition slow_client :: Client where
  "slow_client =
     \<lparr>documentID = ''doc-A'', send = \<lparr>buf = replicate 256 frame_hello, cap = 256, closed = False\<rparr>\<rparr>"

definition hub_slow :: Hub where
  "hub_slow = NewHub\<lparr>clients := [(1, slow_client)]\<rparr>"

section \<open>Basic facts\<close>

lemma wrap64_id: "- (2 ^ 63) \<le> x \<Longrightarrow> x < 2 ^ 63 \<Longrightarrow> wrap64 x = x"
  by (simp add: wrap64_def)

lemma go_add_exact: "- (2 ^ 63) \<le> x + y \<Longrightarrow> x + y < 2 ^ 63 \<Longrightarrow> go_add x y = x + y"
  by (simp add: go_add_def wrap64_id)

lemma OpType_distinct [simp]:
  "OpInsert \<noteq> OpDelete" "OpDelete \<noteq> OpInsert" "OpInsert \<noteq> OpRetain"
  "OpRetain \<noteq> OpInsert" "OpDelete \<noteq> OpRetain" "OpRetain \<noteq> OpDelete"
  by (simp_all add: OpInsert_def OpDelete_def OpRetain_def)

lemma Validate_NoneD:
  assumes "Validate op = None"
  shows "0 \<le> Position op" and "0 \<le> Version op"
    and "Type op = OpInsert \<or> Type op = OpDelete \<or> Type op = OpRetain"
    and "Type op = OpInsert \<Longrightarrow> Text op \<noteq> []" and "Type op = OpDelete \<Longrightarrow> Text op \<noteq> []"
  using assms by (auto simp: Validate_def split: if_splits option.splits)

lemmas ot_eval = Transform_def Apply_def Validate_def applyInsert_def applyDelete_def
  transformInsertInsert_def transformInsertDelete_def transformDeleteInsert_def
  transformDeleteDelete_def NewInsertOp_def NewDeleteOp_def OpInsert_def OpDelete_def
  OpRetain_def Length_def go_add_def go_sub_def wrap64_def Let_def

lemma Transform_valid:
  assumes "Validate a = None" and "Validate b = None"
  shows "Transform (Some a) (Some b) =
    (let op1Prime = \<lparr>Type = Type a, Position = Position a, Text = Text a, Version = go_add (Version a) 1\<rparr>;
         op2Prime = \<lparr>Type = Type b, Position = Position b, Text = Text b, Version = go_add (Version b) 1\<rparr> in
     if Type a = OpInsert \<and> Type b = OpInsert then Inr (transformInsertInsert op1Prime op2Prime)
     else if Type a = OpInsert \<and> Type b = OpDelete then Inr (transformInsertDelete op1Prime op2Prime)
     else if Type a = OpDelete \<and> Type b = OpInsert then Inr (transformDeleteInsert op1Prime op2Prime)
     else if Type a = OpDelete \<and> Type b = OpDelete then Inr (transformDeleteDelete op1Prime op2Prime)
     else Inl (UnsupportedCombination (Type a) (Type b)))"
  using assms by (simp add: Transform_def)

lemma transformInsertInsert_Version:
  "Version (fst (transformInsertInsert p q)) = Version p \<and> Version (snd (transformInsertInsert p q)) = Version q"
  by (simp add: transformInsertInsert_def)

lemma transformInsertDelete_Version:
  "Version (fst (transformInsertDelete p q)) = Version p \<and> Version (snd (transformInsertDelete p q)) = Version q"
  by (simp add: transformInsertDelete_def)

lemma transformDeleteInsert_Version:
  "Version (fst (transformDeleteInsert p q)) = Version p \<and> Version (snd (transformDeleteInsert p q)) = Version q"
  by (simp add: transformDeleteInsert_def transformInsertDelete_def split: prod.splits)

lemma transformDeleteDelete_Version:
  "Version (fst (transformDeleteDelete p q)) = Version p \<and> Version (snd (transformDeleteDelete p q)) = Version q"
  by (simp add: transformDeleteDelete_def Let_def)

lemma Transform_versions:
  assumes "Validate a = None" and "Validate b = None"
  shows "case Transform (Some a) (Some b) of
           Inr (a', b') \<Rightarrow> Version a' = go_add (Version a) 1 \<and> Version b' = go_add (Version b) 1
         | Inl e \<Rightarrow> e = UnsupportedCombination (Type a) (Type b) \<and>
                    (Type a = OpRetain \<or> Type b = OpRetain)"
proof -
  let ?p = "\<lparr>Type = Type a, Position = Position a, Text = Text a, Version = go_add (Version a) 1\<rparr>"
  let ?q = "\<lparr>Type = Type b, Position = Position b, Text = Text b, Version = go_add (Version b) 1\<rparr>"
  have ta: "Type a = OpInsert \<or> Type a = OpDelete \<or> Type a = OpRetain"
    using assms(1) by (rule Validate_NoneD)
  have tb: "Type b = OpInsert \<or> Type b = OpDelete \<or> Type b = OpRetain"
    using assms(2) by (rule Validate_NoneD)
  consider (ii) "Type a = OpInsert" "Type b = OpInsert"
    | (id) "Type a = OpInsert" "Type b = OpDelete"
    | (di) "Type a = OpDelete" "Type b = OpInsert"
    | (dd) "Type a = OpDelete" "Type b = OpDelete"
    | (r) "Type a = OpRetain \<or> Type b = OpRetain"
    using ta tb by blast
  then show ?thesis
  proof cases
    case ii
    then have "Transform (Some a) (Some b) = Inr (transformInsertInsert ?p ?q)"
      by (simp add: Transform_valid [OF assms])
    then show ?thesis
      using transformInsertInsert_Version [of ?p ?q] by (simp add: case_prod_beta)
  next
    case id
    then have "Transform (Some a) (Some b) = Inr (transformInsertDelete ?p ?q)"
      by (simp add: Transform_valid [OF assms])
    then show ?thesis
      using transformInsertDelete_Version [of ?p ?q] by (simp add: case_prod_beta)
  next
    case di
    then have "Transform (Some a) (Some b) = Inr (transformDeleteInsert ?p ?q)"
      by (simp add: Transform_valid [OF assms])
    then show ?thesis
      using transformDeleteInsert_Version [of ?p ?q] by (simp add: case_prod_beta)
  next
    case dd
    then have "Transform (Some a) (Some b) = Inr (transformDeleteDelete ?p ?q)"
      by (simp add: Transform_valid [OF assms])
    then show ?thesis
      using transformDeleteDelete_Version [of ?p ?q] by (simp add: case_prod_beta)
  next
    case r
    then have "Transform (Some a) (Some b) = Inl (UnsupportedCombination (Type a) (Type b))"
      by (auto simp: Transform_valid [OF assms])
    then show ?thesis using r by simp
  qed
qed


section \<open>Facts about the hub loops\<close>

lemma range_clients_map:
  assumes "\<And>r c. (r, c) \<in> set cs \<Longrightarrow> body r c = Some (f r c, g r c)"
  shows "range_clients body cs =
           Some (map (\<lambda>(r, c). (r, f r c)) cs, concat (map (\<lambda>(r, c). g r c) cs))"
  using assms
proof (induction cs)
  case Nil
  then show ?case by simp
next
  case (Cons x cs)
  obtain r c where x: "x = (r, c)" by (cases x)
  have hd: "body r c = Some (f r c, g r c)" using Cons.prems x by simp
  have tl: "range_clients body cs =
      Some (map (\<lambda>(r, c). (r, f r c)) cs, concat (map (\<lambda>(r, c). g r c) cs))"
    using Cons by simp
  show ?case unfolding x by (simp add: hd tl)
qed

lemma concat_singletons:
  "concat (map (\<lambda>(r, c). if P r c then [r] else []) cs) = map fst (filter (\<lambda>(r, c). P r c) cs)"
  by (induction cs) auto

lemma try_send_open:
  "\<not> closed (send c) \<Longrightarrow>
   try_send (send c) m =
     (if has_room c then Sent ((send c)\<lparr>buf := buf (send c) @ [m]\<rparr>) else Default)"
  by (simp add: try_send_def has_room_def)

lemma all_open_mem: "all_open cs \<Longrightarrow> (r, c) \<in> set cs \<Longrightarrow> \<not> closed (send c)"
  by (auto simp: all_open_def list_all_iff)

lemma enqueue_fields [simp]:
  "documentID (enqueue m c) = documentID c"
  "closed (send (enqueue m c)) = closed (send c)"
  "cap (send (enqueue m c)) = cap (send c)"
  by (simp_all add: enqueue_def)

text \<open>The fan-out loop shared by broadcastToAll and broadcastToDocument.\<close>

lemma fanout_loop:
  assumes "all_open cs"
  shows "range_clients
           (\<lambda>r c. if sel r c then
                    (case try_send (send c) m of
                       Sent ch \<Rightarrow> Some (c\<lparr>send := ch\<rparr>, [])
                     | Default \<Rightarrow> Some (c, [r])
                     | Panic \<Rightarrow> None)
                  else Some (c, [])) cs =
         Some (map (\<lambda>(r, c). (r, if sel r c then enqueue m c else c)) cs,
               map fst (filter (\<lambda>(r, c). sel r c \<and> \<not> has_room c) cs))"
proof -
  have "range_clients
           (\<lambda>r c. if sel r c then
                    (case try_send (send c) m of
                       Sent ch \<Rightarrow> Some (c\<lparr>send := ch\<rparr>, [])
                     | Default \<Rightarrow> Some (c, [r])
                     | Panic \<Rightarrow> None)
                  else Some (c, [])) cs =
         Some (map (\<lambda>(r, c). (r, if sel r c then enqueue m c else c)) cs,
               concat (map (\<lambda>(r, c). if sel r c \<and> \<not> has_room c then [r] else []) cs))"
  proof (rule range_clients_map)
    fix r c assume "(r, c) \<in> set cs"
    then have "\<not> closed (send c)" using assms by (rule all_open_mem [rotated])
    then show "(if sel r c then
                    (case try_send (send c) m of
                       Sent ch \<Rightarrow> Some (c\<lparr>send := ch\<rparr>, [])
                     | Default \<Rightarrow> Some (c, [r])
                     | Panic \<Rightarrow> None)
                  else Some (c, [])) =
       Some (if sel r c then enqueue m c else c, if sel r c \<and> \<not> has_room c then [r] else [])"
      by (simp add: try_send_open enqueue_def)
  qed
  then show ?thesis by (simp only: concat_singletons)
qed

lemma broadcastToAll_open:
  assumes "all_open (clients h)"
  shows "broadcastToAll m ex h =
     Some (h\<lparr>clients := map (\<lambda>(r, c). (r, if ex \<noteq> Some r then enqueue m c else c)) (clients h),
             unregister := unregister h @
               map fst (filter (\<lambda>(r, c). ex \<noteq> Some r \<and> \<not> has_room c) (clients h))\<rparr>)"
proof -
  have body: "(\<lambda>r c. if ex \<noteq> None \<and> Some r = ex then Some (c, [])
                    else case try_send (send c) m of
                           Sent ch \<Rightarrow> Some (c\<lparr>send := ch\<rparr>, [])
                         | Default \<Rightarrow> Some (c, [r])
                         | Panic \<Rightarrow> None) =
     (\<lambda>r c. if ex \<noteq> Some r then
                    (case try_send (send c) m of
                       Sent ch \<Rightarrow> Some (c\<lparr>send := ch\<rparr>, [])
                     | Default \<Rightarrow> Some (c, [r])
                     | Panic \<Rightarrow> None)
                  else Some (c, []))"
    by (intro ext) auto
  show ?thesis
    unfolding broadcastToAll_def body
    by (simp add: fanout_loop [OF assms])
qed

lemma broadcastToDocument_open:
  assumes "all_open (clients h)"
  shows "broadcastToDocument d m ex h =
     Some (h\<lparr>clients := map (\<lambda>(r, c). (r, if documentID c = d \<and> ex \<noteq> Some r then enqueue m c else c))
                          (clients h),
             unregister := unregister h @
               map fst (filter (\<lambda>(r, c). (documentID c = d \<and> ex \<noteq> Some r) \<and> \<not> has_room c)
                          (clients h))\<rparr>)"
proof -
  have body: "(\<lambda>r c. if documentID c = d then
                      (if ex \<noteq> None \<and> Some r = ex then Some (c, [])
                       else case try_send (send c) m of
                              Sent ch \<Rightarrow> Some (c\<lparr>send := ch\<rparr>, [])
                            | Default \<Rightarrow> Some (c, [r])
                            | Panic \<Rightarrow> None)
                    else Some (c, [])) =
     (\<lambda>r c. if documentID c = d \<and> ex \<noteq> Some r then
                    (case try_send (send c) m of
                       Sent ch \<Rightarrow> Some (c\<lparr>send := ch\<rparr>, [])
                     | Default \<Rightarrow> Some (c, [r])
                     | Panic \<Rightarrow> None)
                  else Some (c, []))"
    by (intro ext) auto
  show ?thesis
    unfolding broadcastToDocument_def body
    by (simp add: fanout_loop [OF assms])
qed

lemma increment_keys: "fst ` set (increment k m) = insert k (fst ` set m)"
  by (induction k m rule: increment.induct) auto

lemma increment_distinct: "distinct (map fst m) \<Longrightarrow> distinct (map fst (increment k m))"
  by (induction k m rule: increment.induct) (auto simp: increment_keys)

lemma map_of_increment:
  "map_of (increment k m) d =
     (if d = k then Some (case map_of m k of None \<Rightarrow> 1 | Some n \<Rightarrow> n + 1) else map_of m d)"
  by (induction k m rule: increment.induct) auto

lemma docCounts_distinct: "distinct (map fst m) \<Longrightarrow> distinct (map fst (docCounts cs m))"
  by (induction cs m rule: docCounts.induct) (auto simp: increment_distinct)

lemma participants_on_Cons:
  "participants_on d ((r, c) # cs) = (if documentID c = d then 1 else 0) + participants_on d cs"
  by (simp add: participants_on_def)

lemma participants_on_nonneg: "0 \<le> participants_on d cs"
  by (simp add: participants_on_def)

lemma participants_on_pos: "(r, c) \<in> set cs \<Longrightarrow> 0 < participants_on (documentID c) cs"
  by (induction cs) (auto simp: participants_on_Cons participants_on_nonneg add_pos_nonneg)

lemma map_of_docCounts:
  "map_of (docCounts cs m) d =
     (if participants_on d cs = 0 then map_of m d
      else Some ((case map_of m d of None \<Rightarrow> 0 | Some n \<Rightarrow> n) + participants_on d cs))"
proof (induction cs m rule: docCounts.induct)
  case (1 m)
  then show ?case by (simp add: participants_on_def)
next
  case (2 r c rest m)
  have nn: "0 \<le> participants_on d rest" by (rule participants_on_nonneg)
  show ?case
    using nn by (auto simp: 2 participants_on_Cons map_of_increment split: option.splits)
qed

lemma map_of_docCounts_member:
  assumes "(r, c) \<in> set cs"
  shows "map_of (docCounts cs []) (documentID c) = Some (participants_on (documentID c) cs)"
  using participants_on_pos [OF assms] by (simp add: map_of_docCounts)

lemma all_open_map_enqueue:
  "all_open cs \<Longrightarrow> all_open (map (\<lambda>(r, c). (r, if P r c then enqueue m c else c)) cs)"
  by (fastforce simp: all_open_def list_all_iff split: if_splits)

lemma userCount_inner:
  assumes "all_open cs"
  shows "range_clients
           (\<lambda>r c. if documentID c = d then
                    (case try_send (send c) m of
                       Sent ch \<Rightarrow> Some (c\<lparr>send := ch\<rparr>, [])
                     | Default \<Rightarrow> Some (c, [])
                     | Panic \<Rightarrow> None)
                  else Some (c, [])) cs =
         Some (map (\<lambda>(r, c). (r, if documentID c = d then enqueue m c else c)) cs,
               concat (map (\<lambda>(r, c). []) cs))"
proof (rule range_clients_map)
  fix r c assume "(r, c) \<in> set cs"
  then have "\<not> closed (send c)" using assms by (rule all_open_mem [rotated])
  then show "(if documentID c = d then
                    (case try_send (send c) m of
                       Sent ch \<Rightarrow> Some (c\<lparr>send := ch\<rparr>, [])
                     | Default \<Rightarrow> Some (c, [])
                     | Panic \<Rightarrow> None)
                  else Some (c, [])) =
       Some (if documentID c = d then enqueue m c else c, [])"
    by (simp add: try_send_open enqueue_def)
qed

lemma userCount_loop_open:
  assumes "distinct (map fst m)" and "all_open cs"
  shows "userCount_loop cd m cs =
     Some (map (\<lambda>(r, c). (r, case map_of m (documentID c) of
                               None \<Rightarrow> c
                             | Some n \<Rightarrow> (case ToBytes cd (NewUserCountMessage n) of
                                            None \<Rightarrow> c
                                          | Some b \<Rightarrow> enqueue b c))) cs)"
  using assms
proof (induction m arbitrary: cs)
  case Nil
  then show ?case by simp
next
  case (Cons e rest)
  obtain d n where e: "e = (d, n)" by (cases e)
  have dist: "distinct (map fst rest)" and fresh: "map_of rest d = None"
    using Cons.prems(1) e by (auto simp: map_of_eq_None_iff)
  show ?case
  proof (cases "ToBytes cd (NewUserCountMessage n)")
    case None
    have "userCount_loop cd (e # rest) cs = userCount_loop cd rest cs"
      unfolding e by (simp add: None)
    also have "\<dots> = Some (map (\<lambda>(r, c). (r, case map_of rest (documentID c) of
                               None \<Rightarrow> c
                             | Some n \<Rightarrow> (case ToBytes cd (NewUserCountMessage n) of
                                            None \<Rightarrow> c
                                          | Some b \<Rightarrow> enqueue b c))) cs)"
      by (rule Cons.IH [OF dist Cons.prems(2)])
    also have "\<dots> = Some (map (\<lambda>(r, c). (r, case map_of (e # rest) (documentID c) of
                               None \<Rightarrow> c
                             | Some n \<Rightarrow> (case ToBytes cd (NewUserCountMessage n) of
                                            None \<Rightarrow> c
                                          | Some b \<Rightarrow> enqueue b c))) cs)"
      unfolding e using None fresh by (auto intro!: map_cong)
    finally show ?thesis .
  next
    case (Some b)
    let ?cs' = "map (\<lambda>(r, c). (r, if documentID c = d then enqueue b c else c)) cs"
    have op': "all_open ?cs'" using Cons.prems(2) by (rule all_open_map_enqueue)
    have "userCount_loop cd (e # rest) cs = userCount_loop cd rest ?cs'"
      unfolding e by (simp add: Some userCount_inner [OF Cons.prems(2)])
    also have "\<dots> = Some (map (\<lambda>(r, c). (r, case map_of rest (documentID c) of
                               None \<Rightarrow> c
                             | Some n \<Rightarrow> (case ToBytes cd (NewUserCountMessage n) of
                                            None \<Rightarrow> c
                                          | Some b \<Rightarrow> enqueue b c))) ?cs')"
      by (rule Cons.IH [OF dist op'])
    also have "\<dots> = Some (map (\<lambda>(r, c). (r, case map_of (e # rest) (documentID c) of
                               None \<Rightarrow> c
                             | Some n \<Rightarrow> (case ToBytes cd (NewUserCountMessage n) of
                                            None \<Rightarrow> c
                                          | Some b \<Rightarrow> enqueue b c))) cs)"
      unfolding e using Some fresh by (auto simp: comp_def intro!: map_cong)
    finally show ?thesis .
  qed
qed

lemma broadcastUserCount_open:
  assumes "all_open (clients h)"
  shows "broadcastUserCount cd h = Some (h\<lparr>clients := emit_user_count cd (clients h)\<rparr>)"
proof -
  have "userCount_loop cd (docCounts (clients h) []) (clients h) =
      Some (map (\<lambda>(r, c). (r, case map_of (docCounts (clients h) []) (documentID c) of
                               None \<Rightarrow> c
                             | Some n \<Rightarrow> (case ToBytes cd (NewUserCountMessage n) of
                                            None \<Rightarrow> c
                                          | Some b \<Rightarrow> enqueue b c))) (clients h))"
    by (rule userCount_loop_open [OF _ assms]) (simp add: docCounts_distinct)
  also have "\<dots> = Some (emit_user_count cd (clients h))"
    unfolding emit_user_count_def by (auto simp: map_of_docCounts_member intro!: map_cong)
  finally show ?thesis by (simp add: broadcastUserCount_def)
qed

lemma emit_user_count_keys:
  "map (\<lambda>(r, c). (r, documentID c)) (emit_user_count cd cs) = map (\<lambda>(r, c). (r, documentID c)) cs"
  unfolding emit_user_count_def by (induction cs) (auto split: option.splits)

lemma map_of_map_clients:
  "map_of (map (\<lambda>(r, c). (r, F r c)) cs) s = map_option (F s) (map_of cs s)"
  by (induction cs) auto

lemma broadcastToDocument_skips_sender:
  assumes "all_open (clients h)"
  shows "\<exists>h'. broadcastToDocument d m (Some s) h = Some h' \<and>
           map_of (clients h') s = map_of (clients h) s \<and> s \<notin> set (unregister h') - set (unregister h)"
  by (auto simp: broadcastToDocument_open [OF assms] map_of_map_clients option.map_ident
      intro!: option.map_cong)

lemmas hub_eval = Run_broadcast_def Run_register_def Run_unregister_def broadcastToAll_def
  broadcastToDocument_def broadcastUserCount_def GetOrCreateDocument_def try_send_def
  NewHub_def NewClient_def NewDocument_def NewUserCountMessage_def json_frames_def
  frame_hello_def frame_empty_content_def frame_no_operation_def frame_no_document_def
  frame_cursor_def frame_user_count_1_def frame_user_count_2_def hub_one_def hub_two_def
  hub_slow_def slow_client_def MsgTypeContent_def MsgTypeOperation_def MsgTypeUserCount_def
  Let_def

section \<open>Transform\<close>

text \<open>
  Claim C1 (convergence of Transform) fails on the code. The scenario of the
  specification with an insert strictly inside a delete range: on \<open>abcd\<close>,
  \<open>I = insert(2, Z)\<close> and \<open>D = delete(1, bc)\<close>. Transform moves the insert to position
  1 and returns the delete unchanged; after \<open>I\<close> the text at the range of the delete is
  \<open>bZ\<close>, so the returned delete is refused, while the other order gives \<open>aZd\<close>. The
  scenario with overlapping deletes: on \<open>abcdef\<close>, \<open>a = delete(1, bcd)\<close> and
  \<open>b = delete(2, cde)\<close>. Transform clips \<open>b\<close> to \<open>e\<close> at position 1 and returns \<open>a\<close>
  unchanged; after \<open>b\<close> the document \<open>abf\<close> is too short for \<open>a\<close>, so the returned
  \<open>a\<close> is refused, while the other order gives \<open>af\<close>.
\<close>

theorem transform_diverges_on_overlap:
  "Transform (Some (NewInsertOp 2 ''Z'' 0)) (Some (NewDeleteOp 1 ''bc'' 0)) =
     Inr (NewInsertOp 1 ''Z'' 1, NewDeleteOp 1 ''bc'' 1) \<and>
   Apply ''abcd'' (Some (NewInsertOp 2 ''Z'' 0)) = Inr ''abZcd'' \<and>
   Apply ''abZcd'' (Some (NewDeleteOp 1 ''bc'' 1)) = Inl (DeleteTextMismatch ''bc'' ''bZ'') \<and>
   Apply ''abcd'' (Some (NewDeleteOp 1 ''bc'' 0)) = Inr ''ad'' \<and>
   Apply ''ad'' (Some (NewInsertOp 1 ''Z'' 1)) = Inr ''aZd'' \<and>
   Transform (Some (NewDeleteOp 1 ''bcd'' 0)) (Some (NewDeleteOp 2 ''cde'' 0)) =
     Inr (NewDeleteOp 1 ''bcd'' 1, NewDeleteOp 1 ''e'' 1) \<and>
   Apply ''abcdef'' (Some (NewDeleteOp 1 ''bcd'' 0)) = Inr ''aef'' \<and>
   Apply ''aef'' (Some (NewDeleteOp 1 ''e'' 1)) = Inr ''af'' \<and>
   Apply ''abcdef'' (Some (NewDeleteOp 2 ''cde'' 0)) = Inr ''abf'' \<and>
   Apply ''abf'' (Some (NewDeleteOp 1 ''bcd'' 1)) = Inl (DeleteRangeExceeds 1 4 3)"
  by (simp add: ot_eval)



text \<open>
  Claim C4: for valid operations authored against the same version, both operations
  returned by Transform carry the version \<open>max(a.version, b.version) + 1\<close> (Go's
  addition; the plain sum below the largest \<open>int\<close>). Transform returns for every such
  pair except when a Retain takes part, where it reports the unsupported combination.
\<close>

theorem transform_version_bump:
  assumes "Validate a = None" and "Validate b = None" and "Version a = Version b"
  shows "case Transform (Some a) (Some b) of
           Inr (a', b') \<Rightarrow>
             Version a' = go_add (max (Version a) (Version b)) 1 \<and>
             Version b' = go_add (max (Version a) (Version b)) 1 \<and>
             (max (Version a) (Version b) < 2 ^ 63 - 1 \<longrightarrow>
                Version a' = max (Version a) (Version b) + 1 \<and>
                Version b' = max (Version a) (Version b) + 1)
         | Inl e \<Rightarrow>
             e = UnsupportedCombination (Type a) (Type b) \<and>
             (Type a = OpRetain \<or> Type b = OpRetain)"
proof -
  have v: "0 \<le> Version a" using assms(1) by (rule Validate_NoneD)
  have m: "max (Version a) (Version b) = Version a" "Version b = Version a"
    using assms(3) by simp_all
  have exact: "Version a < 2 ^ 63 - 1 \<longrightarrow> go_add (Version a) 1 = Version a + 1"
    using v by (auto intro!: go_add_exact)
  show ?thesis
    unfolding m using Transform_versions [OF assms(1,2)] exact
    by (auto simp: m split: sum.splits)
qed


theorem transform_version_bump_witness:
  "Validate (NewInsertOp 1 ''X'' 3) = None \<and> Validate (NewDeleteOp 0 ''ab'' 3) = None \<and>
   Version (NewInsertOp 1 ''X'' 3) = Version (NewDeleteOp 0 ''ab'' 3) \<and>
   max (Version (NewInsertOp 1 ''X'' 3)) (Version (NewDeleteOp 0 ''ab'' 3)) < 2 ^ 63 - 1 \<and>
   (\<exists>a' b'. Transform (Some (NewInsertOp 1 ''X'' 3)) (Some (NewDeleteOp 0 ''ab'' 3)) = Inr (a', b') \<and>
      Version a' = 4 \<and> Version b' = 4)"
proof -
  have v1: "Validate (NewInsertOp 1 ''X'' 3) = None" and v2: "Validate (NewDeleteOp 0 ''ab'' 3) = None"
    by (simp_all add: Validate_def NewInsertOp_def NewDeleteOp_def OpInsert_def OpDelete_def)
  have e: "Version (NewInsertOp 1 ''X'' 3) = Version (NewDeleteOp 0 ''ab'' 3)"
    by (simp add: NewInsertOp_def NewDeleteOp_def)
  have m: "max (Version (NewInsertOp 1 ''X'' 3)) (Version (NewDeleteOp 0 ''ab'' 3)) = 3"
    by (simp add: NewInsertOp_def NewDeleteOp_def)
  obtain a' b' where t: "Transform (Some (NewInsertOp 1 ''X'' 3)) (Some (NewDeleteOp 0 ''ab'' 3)) = Inr (a', b')"
    by (simp add: Transform_def Validate_def transformInsertDelete_def NewInsertOp_def
        NewDeleteOp_def OpInsert_def OpDelete_def OpRetain_def Let_def Length_def go_add_def
        go_sub_def wrap64_def)
  from transform_version_bump [OF v1 v2 e] have "Version a' = 3 + 1 \<and> Version b' = 3 + 1"
    unfolding t m by simp
  with t v1 v2 e m show ?thesis by simp
qed

section \<open>Apply and Document\<close>

text \<open>
  Claim C5: for a document \<open>D\<close> and a valid Insert \<open>I\<close> with
  \<open>0 \<le> I.position \<le> len(D)\<close>, the Delete at the same position with the text of \<open>I\<close>
  (at any valid version) applies to \<open>Apply(D, I)\<close> and gives \<open>D\<close> back.
\<close>

theorem apply_insert_then_delete:
  assumes "Validate i = None" and "Type i = OpInsert"
    and "0 \<le> Position i" and "Position i \<le> int (length D)" and "0 \<le> v"
  shows "\<exists>D1. Apply D (Some i) = Inr D1 \<and>
           Apply D1 (Some (NewDeleteOp (Position i) (Text i) v)) = Inr D"
proof -
  let ?p = "nat (Position i)"
  let ?D1 = "take ?p D @ Text i @ drop ?p D"
  let ?d = "NewDeleteOp (Position i) (Text i) v"
  have ne: "Text i \<noteq> []" using assms(1,2) by (rule Validate_NoneD)
  have p: "?p \<le> length D" using assms(3,4) by auto
  have a1: "Apply D (Some i) = Inr ?D1"
    using assms by (simp add: Apply_def applyInsert_def)
  have vd: "Validate ?d = None"
    using assms(3,5) ne by (simp add: Validate_def NewDeleteOp_def)
  have pd: "Position ?d = Position i" "Text ?d = Text i" "Type ?d = OpDelete"
    "Length ?d = int (length (Text i))"
    by (simp_all add: NewDeleteOp_def Length_def)
  have l1: "1 \<le> int (length (Text i))" using ne by (cases "Text i") simp_all
  have len: "int (length ?D1) = int (length D) + int (length (Text i))" using p by simp
  have g1: "\<not> (Position i < 0 \<or> Position i \<ge> int (length ?D1))"
    unfolding len using assms(3,4) l1 by linarith
  have g2: "\<not> Position i + int (length (Text i)) > int (length ?D1)"
    unfolding len using assms(4) by linarith
  have n: "nat (Position i + int (length (Text i))) = ?p + length (Text i)"
    using assms(3) by (simp add: nat_add_distrib)
  have tk: "take (?p + length (Text i)) ?D1 = take ?p D @ Text i" using p by simp
  have act: "drop ?p (take (?p + length (Text i)) ?D1) = Text i"
    unfolding tk using p by simp
  have dr: "drop (?p + length (Text i)) ?D1 = drop ?p D" using p by simp
  have tk2: "take ?p ?D1 = take ?p D" using p by simp
  have "applyDelete ?D1 ?d = Inr (take ?p D @ drop ?p D)"
    unfolding applyDelete_def Let_def pd n act dr tk2 using g1 g2 by (simp only: if_False simp_thms)
  then have "Apply ?D1 (Some ?d) = Inr D"
    using vd pd(3) by (simp add: Apply_def)
  with a1 show ?thesis by blast
qed


theorem apply_insert_then_delete_witness:
  "Validate (NewInsertOp 2 ''XY'' 0) = None \<and> Type (NewInsertOp 2 ''XY'' 0) = OpInsert \<and>
   0 \<le> Position (NewInsertOp 2 ''XY'' 0) \<and> Position (NewInsertOp 2 ''XY'' 0) \<le> int (length ''abc'') \<and>
   (0::int) \<le> 5 \<and>
   (\<exists>D1. Apply ''abc'' (Some (NewInsertOp 2 ''XY'' 0)) = Inr D1 \<and>
       Apply D1 (Some (NewDeleteOp 2 ''XY'' 5)) = Inr ''abc'')"
proof -
  have h1: "Validate (NewInsertOp 2 ''XY'' 0) = None"
    by (simp add: Validate_def NewInsertOp_def OpInsert_def)
  have h2: "Type (NewInsertOp 2 ''XY'' 0) = OpInsert" by (simp add: NewInsertOp_def)
  have h3: "0 \<le> Position (NewInsertOp 2 ''XY'' 0)" by (simp add: NewInsertOp_def)
  have h4: "Position (NewInsertOp 2 ''XY'' 0) \<le> int (length ''abc'')" by (simp add: NewInsertOp_def)
  have h5: "(0::int) \<le> 5" by simp
  have s: "Position (NewInsertOp 2 ''XY'' 0) = 2" "Text (NewInsertOp 2 ''XY'' 0) = ''XY''"
    by (simp_all add: NewInsertOp_def)
  from apply_insert_then_delete [OF h1 h2 h3 h4 h5] h1 h2 h3 h4
  show ?thesis unfolding s by simp
qed


text \<open>
  Claim C6: \<open>ApplyOperation\<close> is atomic. When the inner \<open>Apply\<close> fails, the document
  (content, version and lastModified) is unchanged and the current version is returned
  with the error. When it succeeds, the new content is committed, the version is
  incremented once (by exactly 1 below the largest \<open>int\<close>) and returned with the new
  content.
\<close>

theorem ApplyOperation_atomic:
  "case Apply (content d) opp of
     Inl err \<Rightarrow> ApplyOperation now opp d = (d, ([], version d, Some err))
   | Inr newContent \<Rightarrow>
       (case ApplyOperation now opp d of (d', (c, v, e)) \<Rightarrow>
          content d' = newContent \<and> version d' = go_add (version d) 1 \<and> lastModified d' = now \<and>
          c = newContent \<and> v = version d' \<and> e = None \<and>
          (0 \<le> version d \<and> version d < 2 ^ 63 - 1 \<longrightarrow> version d' = version d + 1))"
proof -
  have "0 \<le> version d \<and> version d < 2 ^ 63 - 1 \<longrightarrow> go_add (version d) 1 = version d + 1"
    by (auto intro!: go_add_exact)
  then show ?thesis
    by (simp add: ApplyOperation_def Let_def split: sum.splits)
qed

theorem ApplyOperation_atomic_witness:
  "ApplyOperation 7 (Some (NewInsertOp 0 ''hi'' 0)) (NewDocument 3) =
     (\<lparr>content = ''hi'', version = 1, lastModified = 7\<rparr>, (''hi'', 1, None)) \<and>
   ApplyOperation 7 (Some (NewDeleteOp 0 ''x'' 0)) (NewDocument 3) =
     (NewDocument 3, ([], 0, Some (DeleteOutOfRange 0 0)))"
proof -
  have a: "Apply (content (NewDocument 3)) (Some (NewInsertOp 0 ''hi'' 0)) = Inr ''hi''"
    by (simp add: NewDocument_def ot_eval)
  have b: "Apply (content (NewDocument 3)) (Some (NewDeleteOp 0 ''x'' 0)) =
      Inl (DeleteOutOfRange 0 0)"
    by (simp add: NewDocument_def ot_eval)
  have v: "0 \<le> version (NewDocument 3) \<and> version (NewDocument 3) < 2 ^ 63 - 1"
    by (simp add: NewDocument_def)
  from ApplyOperation_atomic [where d = "NewDocument 3" and opp = "Some (NewInsertOp 0 ''hi'' 0)"
      and now = 7] v
  have "case ApplyOperation 7 (Some (NewInsertOp 0 ''hi'' 0)) (NewDocument 3) of
      (d', (c, w, e)) \<Rightarrow> content d' = ''hi'' \<and> version d' = 1 \<and> lastModified d' = 7 \<and>
        c = ''hi'' \<and> w = 1 \<and> e = None"
    unfolding a by (auto simp: NewDocument_def split: prod.splits)
  then have 1: "ApplyOperation 7 (Some (NewInsertOp 0 ''hi'' 0)) (NewDocument 3) =
     (\<lparr>content = ''hi'', version = 1, lastModified = 7\<rparr>, (''hi'', 1, None))"
    by (auto split: prod.splits)
  from ApplyOperation_atomic [where d = "NewDocument 3" and opp = "Some (NewDeleteOp 0 ''x'' 0)"
      and now = 7]
  have 2: "ApplyOperation 7 (Some (NewDeleteOp 0 ''x'' 0)) (NewDocument 3) =
     (NewDocument 3, ([], 0, Some (DeleteOutOfRange 0 0)))"
    unfolding b by (simp add: NewDocument_def)
  from 1 2 show ?thesis by simp
qed

section \<open>Hub\<close>

text \<open>
  Claim C2 (sender exclusion on every path) fails on the code. \<open>Run\<close> calls
  \<open>broadcastToAll\<close> with a nil \<open>exclude\<close> both for a frame that does not decode and
  for a structured message with an empty document ID, so the sender is served like
  every other participant: participant 1, alone on \<open>doc-A\<close>, sends the plain-text frame
  \<open>hello\<close> and then a content message with no document ID, and each time finds the
  frame in its own outbound queue. On the document-scoped path the sender is skipped
  (\<open>broadcastToDocument_skips_sender\<close>).
\<close>

theorem legacy_broadcast_echoes_to_sender:
  "MessageFromBytes json_frames frame_hello = None \<and>
   Run_broadcast json_frames 0 0 frame_hello (Some 1) hub_one =
     Some (hub_one\<lparr>clients :=
       [(1, \<lparr>documentID = ''doc-A'',
             send = \<lparr>buf = [frame_hello], cap = 256, closed = False\<rparr>\<rparr>)]\<rparr>) \<and>
   map_option DocumentID (MessageFromBytes json_frames frame_no_document) = Some [] \<and>
   Run_broadcast json_frames 0 0 frame_no_document (Some 1) hub_one =
     Some (hub_one\<lparr>clients :=
       [(1, \<lparr>documentID = ''doc-A'',
             send = \<lparr>buf = [frame_no_document], cap = 256, closed = False\<rparr>\<rparr>)]\<rparr>)"
  by (simp add: hub_eval)




text \<open>
  Claim C8 (a full queue on the user-count path schedules removal) fails on the code.
  The \<open>default\<close> case of the \<open>select\<close> in \<open>broadcastUserCount\<close> is empty: when
  participant 2 registers on \<open>doc-A\<close> while participant 1 has 256 undelivered frames,
  the user-count message reaches participant 2 only, the queue of participant 1 is
  left as it is and nobody is scheduled for unregistration. An ordinary fan-out in the
  same state does schedule participant 1.
\<close>

theorem user_count_full_queue_not_scheduled:
  "has_room slow_client = False \<and>
   Run_register json_frames 2 (NewClient ''doc-A'') hub_slow =
     Some (hub_slow\<lparr>clients :=
       [(1, slow_client),
        (2, \<lparr>documentID = ''doc-A'',
             send = \<lparr>buf = [frame_user_count_2], cap = 256, closed = False\<rparr>\<rparr>)]\<rparr>) \<and>
   unregister hub_slow = [] \<and>
   map_option unregister (Run_broadcast json_frames 0 0 frame_hello (Some 2) hub_slow) = Some [1]"
  by (simp add: hub_eval has_room_def)

text \<open>
  Claim C9 as stated fails: unregistering participant 7, which is not registered, while
  participant 1 is alone on \<open>doc-A\<close> with an empty queue, puts a user-count message
  into the queue of participant 1.
\<close>

theorem unregister_absent_emits_user_count:
  "map_of (clients hub_one) 7 = None \<and>
   clients hub_one = [(1, NewClient ''doc-A'')] \<and>
   buf (send (NewClient ''doc-A'')) = [] \<and>
   Run_unregister json_frames 7 hub_one =
     Some (hub_one\<lparr>clients :=
       [(1, \<lparr>documentID = ''doc-A'',
             send = \<lparr>buf = [frame_user_count_1], cap = 256, closed = False\<rparr>\<rparr>)]\<rparr>)"
  by (simp add: hub_eval)

text \<open>
  Claim C9, amended: processing an Unregister event for a participant that is not in
  the participant set leaves the participant set (the participants and their
  documents) and the document table unchanged; the user count is still emitted, so
  every registered participant whose queue has room receives the user-count message
  of its document, and no other queue changes.
\<close>

theorem unregister_absent:
  assumes "r \<notin> fst ` set (clients h)" and "all_open (clients h)"
  shows "\<exists>h'. Run_unregister cd r h = Some h' \<and>
           map (\<lambda>(r, c). (r, documentID c)) (clients h') =
             map (\<lambda>(r, c). (r, documentID c)) (clients h) \<and>
           documents h' = documents h \<and>
           clients h' = emit_user_count cd (clients h)"
proof -
  have "map_of (clients h) r = None"
    using assms(1) by (simp add: map_of_eq_None_iff)
  then have "Run_unregister cd r h = broadcastUserCount cd h"
    by (simp add: Run_unregister_def)
  then show ?thesis
    by (simp add: broadcastUserCount_open [OF assms(2)] emit_user_count_keys)
qed

theorem unregister_absent_witness:
  "7 \<notin> fst ` set (clients hub_two) \<and> all_open (clients hub_two) \<and>
   (\<exists>h'. Run_unregister json_frames 7 hub_two = Some h' \<and>
      documents h' = documents hub_two \<and>
      clients h' =
        [(1, \<lparr>documentID = ''doc-A'',
              send = \<lparr>buf = [frame_user_count_2], cap = 256, closed = False\<rparr>\<rparr>),
         (2, \<lparr>documentID = ''doc-A'',
              send = \<lparr>buf = [frame_user_count_2], cap = 256, closed = False\<rparr>\<rparr>)])"
proof -
  have a: "7 \<notin> fst ` set (clients hub_two)" by (simp add: hub_eval)
  have b: "all_open (clients hub_two)" by (simp add: all_open_def hub_eval)
  have e: "emit_user_count json_frames (clients hub_two) =
      [(1, \<lparr>documentID = ''doc-A'',
              send = \<lparr>buf = [frame_user_count_2], cap = 256, closed = False\<rparr>\<rparr>),
         (2, \<lparr>documentID = ''doc-A'',
              send = \<lparr>buf = [frame_user_count_2], cap = 256, closed = False\<rparr>\<rparr>)]"
    by (simp add: emit_user_count_def participants_on_def enqueue_def has_room_def
        hub_two_def NewHub_def NewClient_def json_frames_def NewUserCountMessage_def)
  from unregister_absent [OF a b, of json_frames] a b show ?thesis
    unfolding e by blast
qed

text \<open>
  Claim C10 as stated fails in its last part: when the queue of participant 1 is full,
  a plain-text frame is enqueued nowhere and yet the step has an effect, since
  participant 1 is scheduled for unregistration.
\<close>

theorem legacy_broadcast_schedules_removal:
  "MessageFromBytes json_frames frame_hello = None \<and>
   unregister hub_slow = [] \<and>
   Run_broadcast json_frames 0 0 frame_hello None hub_slow = Some (hub_slow\<lparr>unregister := [1]\<rparr>)"
  by (simp add: hub_eval)

text \<open>
  Claim C10, amended: processing a broadcast whose bytes fail to decode (the legacy
  plain-text path) never reads or changes the document table; its only effects are
  enqueuing the raw bytes into participant outbound queues that have room and
  scheduling the participants whose queue is full for unregistration.
\<close>

theorem legacy_broadcast_frame:
  assumes "MessageFromBytes cd message = None \<or> IsLegacyContent cd message"
    and "all_open (clients h)"
  shows "\<exists>h'. Run_broadcast cd created now message sender h = Some h' \<and>
           documents h' = documents h \<and>
           clients h' = map (\<lambda>(r, c). (r, enqueue message c)) (clients h) \<and>
           unregister h' =
             unregister h @ map fst (filter (\<lambda>(r, c). \<not> has_room c) (clients h))"
proof -
  have "Run_broadcast cd created now message sender h = broadcastToAll message None h"
    using assms(1) by (auto simp: Run_broadcast_def split: option.splits)
  then show ?thesis
    by (simp add: broadcastToAll_open [OF assms(2)])
qed

theorem legacy_broadcast_frame_witness:
  "(MessageFromBytes json_frames frame_hello = None \<or> IsLegacyContent json_frames frame_hello) \<and>
   all_open (clients hub_two) \<and>
   (\<exists>h'. Run_broadcast json_frames 0 0 frame_hello (Some 1) hub_two = Some h' \<and>
      documents h' = documents hub_two \<and>
      clients h' = map (\<lambda>(r, c). (r, enqueue frame_hello c)) (clients hub_two) \<and>
      unregister h' =
        unregister hub_two @ map fst (filter (\<lambda>(r, c). \<not> has_room c) (clients hub_two)))"
proof -
  have a: "MessageFromBytes json_frames frame_hello = None \<or> IsLegacyContent json_frames frame_hello"
    by (simp add: hub_eval)
  have b: "all_open (clients hub_two)"
    by (simp add: all_open_def hub_eval)
  from legacy_broadcast_frame [OF a b] a b show ?thesis by blast
qed

end
